theory Spec2Isabelle
  imports Complex_Main "HOL-Library.Log_Nat"
begin

section \<open>Python values, errors and text conversions\<close>

text \<open>
  The notebook \<^verbatim>\<open>data_integration_and_web_scraping.py\<close> runs top to bottom; an
  exception raised in any cell ends the run.  Exceptions are values of type \<open>error\<close>
  and a fallible computation returns \<open>error + 'a\<close> with \<open>Inl\<close> for the exception.
  Text is \<open>string\<close>; a character is a code point below 256.  A Python float is a
  double; it is modelled by the rational number it denotes, and an operation on
  doubles by the exact operation followed by the rounding \<open>fl\<close>.
\<close>

datatype error = IndexError | ValueError | SyntaxError

definition is_space :: "char \<Rightarrow> bool" where
  \<comment> \<open>the white space that \<^verbatim>\<open>int()\<close> strips: TAB..CR, FS..US, blank, NEL, NBSP\<close>
  "is_space c = (let n = (of_char c :: nat)
                 in (9 \<le> n \<and> n \<le> 13) \<or> (28 \<le> n \<and> n \<le> 32) \<or> n = 133 \<or> n = 160)"

definition is_digit :: "char \<Rightarrow> bool" where
  "is_digit c = (let n = (of_char c :: nat) in 48 \<le> n \<and> n \<le> 57)"

definition digit_val :: "char \<Rightarrow> int" where
  "digit_val c = int (of_char c) - 48"

definition strip :: "string \<Rightarrow> string" where
  "strip s = rev (dropWhile is_space (rev (dropWhile is_space s)))"

fun digits_ok :: "string \<Rightarrow> bool" where
  \<comment> \<open>decimal digits, single underscores allowed between two digits\<close>
  "digits_ok [] = False"
| "digits_ok [c] = is_digit c"
| "digits_ok (c # d # cs) =
     (is_digit c \<and> (if d = CHR ''_'' then digits_ok cs else digits_ok (d # cs)))"

definition digits_val :: "string \<Rightarrow> int" where
  "digits_val s = foldl (\<lambda>a c. 10 * a + digit_val c) 0 (filter is_digit s)"

definition py_int :: "string \<Rightarrow> error + int" where
  \<comment> \<open>\<^verbatim>\<open>int(s)\<close> for a text \<open>s\<close>: ValueError unless \<open>s\<close> is an optionally signed decimal\<close>
  "py_int s =
     (case strip s of
        [] \<Rightarrow> Inl ValueError
      | c # cs \<Rightarrow>
          if c = CHR ''+'' then (if digits_ok cs then Inr (digits_val cs) else Inl ValueError)
          else if c = CHR ''-'' then (if digits_ok cs then Inr (- digits_val cs) else Inl ValueError)
          else if digits_ok (c # cs) then Inr (digits_val (c # cs)) else Inl ValueError)"

fun split_on :: "char \<Rightarrow> string \<Rightarrow> string list" where
  "split_on sep [] = [[]]"
| "split_on sep (x # xs) =
     (if x = sep then [] # split_on sep xs
      else (x # hd (split_on sep xs)) # tl (split_on sep xs))"

definition time_field :: "int \<Rightarrow> string \<Rightarrow> error + int" where
  \<comment> \<open>one or two decimal digits with value at most \<open>bound\<close>\<close>
  "time_field bound s =
     (if (length s = 1 \<or> length s = 2) \<and> list_all is_digit s \<and> digits_val s \<le> bound
      then Inr (digits_val s) else Inl ValueError)"

definition strptime :: "string \<Rightarrow> error + (int \<times> int \<times> int)" where
  \<comment> \<open>\<^verbatim>\<open>datetime.datetime.strptime(s, '%H:%M:%S')\<close>: hour, minute and second of a
      time on 1900-01-01, ValueError when the text does not have that form\<close>
  "strptime s =
     (case split_on CHR '':'' s of
        [h, m, sec] \<Rightarrow>
          (case time_field 23 h of Inl e \<Rightarrow> Inl e | Inr a \<Rightarrow>
            (case time_field 59 m of Inl e \<Rightarrow> Inl e | Inr b \<Rightarrow>
              (case time_field 59 sec of Inl e \<Rightarrow> Inl e | Inr c \<Rightarrow> Inr (a, b, c))))
      | _ \<Rightarrow> Inl ValueError)"

definition second_of_day :: "int \<times> int \<times> int \<Rightarrow> int" where
  "second_of_day t = (case t of (h, m, s) \<Rightarrow> 3600 * h + 60 * m + s)"

definition timedelta_seconds :: "int \<times> int \<times> int \<Rightarrow> int \<times> int \<times> int \<Rightarrow> int" where
  \<comment> \<open>\<^verbatim>\<open>(a - d).seconds\<close>: a timedelta keeps its days apart and its seconds in 0..86399\<close>
  "timedelta_seconds a d = (second_of_day a - second_of_day d) mod 86400"

definition trip_minutes :: "string \<Rightarrow> string \<Rightarrow> error + rat" where
  \<comment> \<open>\<^verbatim>\<open>delta_t.seconds/60\<close> of In[25] as the exact quotient; the double that the code
      adds to \<^verbatim>\<open>time_total\<close> is \<open>fl\<close> of it\<close>
  "trip_minutes arr dep =
     (case strptime arr of Inl e \<Rightarrow> Inl e | Inr a \<Rightarrow>
       (case strptime dep of Inl e \<Rightarrow> Inl e | Inr d \<Rightarrow>
          Inr (of_int (timedelta_seconds a d) / 60)))"

definition py_round :: "rat \<Rightarrow> int" where
  \<comment> \<open>\<^verbatim>\<open>round(x)\<close>: to the nearest integer, a half to the even neighbour\<close>
  "py_round q =
     (let f = \<lfloor>q\<rfloor>; r = q - of_int f
      in if r < 1 / 2 then f else if 1 / 2 < r then f + 1 else if even f then f else f + 1)"

definition pow2 :: "int \<Rightarrow> rat" where
  "pow2 e = (if 0 \<le> e then 2 ^ nat e else 1 / 2 ^ nat (- e))"

definition fl :: "rat \<Rightarrow> rat" where
  \<comment> \<open>the double nearest to \<open>q\<close>, a tie to the even significand (IEEE 754 binary64,
      for the normal range: no overflow, no subnormal numbers).  \<open>e\<close> is the exponent
      that puts the significand \<open>\<bar>q\<bar> / 2^e\<close> between \<open>2^52\<close> and \<open>2^53\<close>.\<close>
  "fl q =
     (if q = 0 then 0
      else
        let a = \<bar>q\<bar>;
            e0 = bitlen (fst (quotient_of a)) - bitlen (snd (quotient_of a)) - 53;
            e = (if a / pow2 e0 < 2 ^ 53 then e0 else e0 + 1)
        in sgn q * of_int (py_round (a / pow2 e)) * pow2 e)"

section \<open>Part 0: merging the two property feeds\<close>

text \<open>
  A cell of a pandas table holds a number or a text.  \<^verbatim>\<open>read_json\<close> (In[2]) gives
  the table \<^verbatim>\<open>content\<close> of the JSON feed, with numbers where the file has numbers.
  The rows of the XML feed are made in In[3] from \<^verbatim>\<open>get_text()\<close>: all four cells are
  texts.  No cell is converted between In[3] and In[5] (\<^verbatim>\<open>to_numeric\<close> comes in In[12]),
  and a number is never equal to a text.
\<close>

datatype cell = Number rat | Text string








section \<open>Part 2: suburb of a point\<close>

text \<open>
  \<^verbatim>\<open>suburb_polygons\<close> is a dictionary from suburb name to polygon, read in insertion
  order.  The containment test is shapely's \<^verbatim>\<open>Polygon.contains\<close>, a parameter here.
\<close>

fun in_suburb_loop :: "('poly \<Rightarrow> real \<times> real \<Rightarrow> bool) \<Rightarrow> (string \<times> 'poly) list \<Rightarrow> real \<times> real \<Rightarrow> string" where
  "in_suburb_loop contains [] p = ''not available''"
| "in_suburb_loop contains (item # rest) p =
     (if contains (snd item) p then fst item else in_suburb_loop contains rest p)"

definition in_suburb :: "('poly \<Rightarrow> real \<times> real \<Rightarrow> bool) \<Rightarrow> (string \<times> 'poly) list \<Rightarrow> real \<Rightarrow> real \<Rightarrow> string" where
  \<comment> \<open>In[11]: the point is \<^verbatim>\<open>Point(lon, lat)\<close>\<close>
  "in_suburb contains suburb_polygons p_lat p_lon =
     in_suburb_loop contains suburb_polygons (p_lon, p_lat)"

definition box_contains :: "(real \<times> real) \<times> (real \<times> real) \<Rightarrow> real \<times> real \<Rightarrow> bool" where
  \<comment> \<open>Not in the source.  A containment test for concrete evaluations: the interior of
      the rectangle with the two given corners.\<close>
  "box_contains b p =
     (fst (fst b) < fst p \<and> fst p < fst (snd b) \<and> snd (fst b) < snd p \<and> snd p < snd (snd b))"

definition two_boxes :: "(string \<times> (real \<times> real) \<times> (real \<times> real)) list" where
  \<comment> \<open>two sample suburbs side by side\<close>
  "two_boxes = [(''CARLTON'', ((0, 0), (1, 1))), (''FITZROY'', ((1, 0), (2, 1)))]"

section \<open>Part 3: the LGA of a suburb\<close>

fun dict_set :: "'k \<Rightarrow> 'v \<Rightarrow> ('k \<times> 'v) list \<Rightarrow> ('k \<times> 'v) list" where
  \<comment> \<open>\<^verbatim>\<open>d[k] = v\<close>: a known key keeps its place, a new key goes to the end\<close>
  "dict_set k v [] = [(k, v)]"
| "dict_set k v (p # ps) = (if fst p = k then (k, v) # ps else p # dict_set k v ps)"

fun save_page :: "(string \<Rightarrow> error + 'v) \<Rightarrow> (string \<times> string) list \<Rightarrow> (string \<times> 'v) list
     \<Rightarrow> error + (string \<times> 'v) list" where
  \<comment> \<open>In[13]: \<^verbatim>\<open>LGA_dict[LGA[i]] = ast.literal_eval(fixed_sub[i])\<close> for every \<open>i\<close>; an
      exception of \<^verbatim>\<open>literal_eval\<close> is not caught\<close>
  "save_page literal_eval [] d = Inr d"
| "save_page literal_eval (entry # rest) d =
     (case literal_eval (snd entry) of
        Inl e \<Rightarrow> Inl e
      | Inr v \<Rightarrow> save_page literal_eval rest (dict_set (fst entry) v d))"

definition read_page :: "(string \<Rightarrow> error + 'v) \<Rightarrow> string list \<Rightarrow> string list
     \<Rightarrow> (string \<times> 'v) list \<times> string list \<Rightarrow> error + (string \<times> 'v) list \<times> string list" where
  \<comment> \<open>In[13], one page.  \<open>LGA\<close> and \<open>suburbs\<close> are the results of the two
      \<^verbatim>\<open>re.findall\<close> on the page; the state is \<^verbatim>\<open>LGA_dict\<close> and the lines printed.\<close>
  "read_page literal_eval LGA suburbs st =
     (let fixed_sub = map (filter (\<lambda>c. c \<noteq> CHR 0x0A)) suburbs
      in if length LGA = length suburbs then
           (case save_page literal_eval (zip LGA fixed_sub) (fst st) of
              Inl e \<Rightarrow> Inl e
            | Inr d \<Rightarrow> Inr (d, snd st))
         else Inr (fst st, snd st @ [''ERROR: PDF READ IN INCORRECTLY'']))"

fun read_pages :: "(string \<Rightarrow> error + 'v) \<Rightarrow> (string list \<times> string list) list
     \<Rightarrow> (string \<times> 'v) list \<times> string list \<Rightarrow> error + (string \<times> 'v) list \<times> string list" where
  \<comment> \<open>In[13]: \<^verbatim>\<open>for page in range(pdfReader.numPages)\<close>\<close>
  "read_pages literal_eval [] st = Inr st"
| "read_pages literal_eval (page # pages) st =
     (case read_page literal_eval (fst page) (snd page) st of
        Inl e \<Rightarrow> Inl e
      | Inr st' \<Rightarrow> read_pages literal_eval pages st')"

definition lower_char :: "char \<Rightarrow> char" where
  \<comment> \<open>\<^verbatim>\<open>str.lower\<close> on one code point below 256\<close>
  "lower_char c =
     (let n = (of_char c :: nat)
      in if (65 \<le> n \<and> n \<le> 90) \<or> (192 \<le> n \<and> n \<le> 222 \<and> n \<noteq> 215) then char_of (n + 32) else c)"

definition lower :: "string \<Rightarrow> string" where
  "lower s = map lower_char s"

definition lga_match :: "string \<Rightarrow> string \<Rightarrow> bool" where
  \<comment> \<open>In[14]: \<^verbatim>\<open>suburb and v and suburb.lower() == v.lower()\<close>\<close>
  "lga_match suburb v = (suburb \<noteq> [] \<and> v \<noteq> [] \<and> lower suburb = lower v)"

fun lga_values :: "string \<Rightarrow> string \<Rightarrow> string list \<Rightarrow> string \<Rightarrow> string" where
  \<comment> \<open>In[14], \<^verbatim>\<open>for v in value\<close>: the cell \<^verbatim>\<open>Lga\<close> is written at every match, the loop
      goes on\<close>
  "lga_values suburb key [] cell = cell"
| "lga_values suburb key (v # vs) cell =
     lga_values suburb key vs (if lga_match suburb v then key else cell)"

fun lga_fill :: "string \<Rightarrow> (string \<times> string list) list \<Rightarrow> string \<Rightarrow> string" where
  \<comment> \<open>In[14], \<^verbatim>\<open>for key, value in LGA_dict.items()\<close> for one property; \<open>cell\<close> is its
      \<^verbatim>\<open>Lga\<close>, "not available" since In[8]\<close>
  "lga_fill suburb [] cell = cell"
| "lga_fill suburb (item # rest) cell =
     lga_fill suburb rest (lga_values suburb (fst item) (snd item) cell)"

definition lga_pairs :: "(string \<times> string list) list \<Rightarrow> (string \<times> string) list" where
  \<comment> \<open>the (region, suburb) pairs in the order in which In[14] visits them\<close>
  "lga_pairs d = concat (map (\<lambda>item. map (Pair (fst item)) (snd item)) d)"

definition lga_first_match :: "string \<Rightarrow> (string \<times> string list) list \<Rightarrow> string \<Rightarrow> string" where
  \<comment> \<open>Not in the source.  The lookup as the specification words it: the region of the
      first matching pair, the cell as it was when no pair matches.\<close>
  "lga_first_match suburb d cell =
     (case filter (\<lambda>p. lga_match suburb (snd p)) (lga_pairs d) of
        [] \<Rightarrow> cell
      | p # _ \<Rightarrow> fst p)"

definition shared_suburb :: "(string \<times> string list) list" where
  \<comment> \<open>a sample \<^verbatim>\<open>LGA_dict\<close> in which two regions list the same suburb\<close>
  "shared_suburb = [(''MELBOURNE'', [''Carlton'', ''Parkville'']), (''YARRA'', [''CARLTON''])]"

section \<open>Part 4: the closest train station\<close>

record stops_row =
  s_stop_id :: string
  stop_lat :: real
  stop_lon :: real

text \<open>
  In[17] computes the distance between the property and a station in double
  arithmetic (\<^verbatim>\<open>radians\<close>, scikit-learn's \<^verbatim>\<open>haversine_distances\<close>, the mean of the
  two entries) and compares the doubles.  The value computed is the parameter
  \<open>result_dist\<close>: a function of the property's coordinates and the station row, each
  double read as the real number it denotes.  The product of two doubles is the
  parameter \<open>multiply\<close>.
\<close>

record nearest_state =
  min_dist :: real
  dist_changed :: bool
  closest_id :: string

fun nearest_loop ::
  "(real \<Rightarrow> real \<Rightarrow> stops_row \<Rightarrow> real) \<Rightarrow> real \<Rightarrow> real \<Rightarrow> stops_row list
     \<Rightarrow> nearest_state \<Rightarrow> nearest_state" where
  \<comment> \<open>In[17], \<^verbatim>\<open>for j in range(len(stops))\<close>\<close>
  "nearest_loop result_dist p_lat p_lon [] s = s"
| "nearest_loop result_dist p_lat p_lon (st # rest) s =
     (if result_dist p_lat p_lon st < min_dist s
      then nearest_loop result_dist p_lat p_lon rest
             \<lparr>min_dist = result_dist p_lat p_lon st, dist_changed = True,
              closest_id = s_stop_id st\<rparr>
      else nearest_loop result_dist p_lat p_lon rest s)"

definition nearest_station ::
  "(real \<Rightarrow> real \<Rightarrow> stops_row \<Rightarrow> real) \<Rightarrow> (real \<Rightarrow> real \<Rightarrow> real) \<Rightarrow> real \<Rightarrow> real
     \<Rightarrow> stops_row list \<Rightarrow> string \<Rightarrow> (string \<times> real) option" where
  \<comment> \<open>In[17] for one property: the two cells written, or \<open>None\<close> when the row keeps its
      defaults "0" and "0".  \<open>previous\<close> is what \<^verbatim>\<open>closest_id\<close> held before; it is
      read only after it was assigned.\<close>
  "nearest_station result_dist multiply p_lat p_lon stops previous =
     (let s = nearest_loop result_dist p_lat p_lon stops
                \<lparr>min_dist = 1, dist_changed = False, closest_id = previous\<rparr>;
          dist = multiply (min_dist s) 6378
      in if dist_changed s then Some (closest_id s, dist) else None)"

text \<open>
  For concrete evaluations: the exact angle that the double arithmetic of In[17]
  approximates.  It is not the code's arithmetic and is used as a distance only where
  the doubles are the same or as clearly apart (angles 0 and \<open>pi\<close>).
\<close>

definition radians :: "real \<Rightarrow> real" where
  "radians x = x * pi / 180"

definition haversine_distance :: "real \<times> real \<Rightarrow> real \<times> real \<Rightarrow> real" where
  \<comment> \<open>the formula of scikit-learn's \<^verbatim>\<open>haversine_distances\<close> over the reals: the angle
      between two points given as (latitude, longitude) in radians\<close>
  "haversine_distance x1 x2 =
     2 * arcsin (sqrt ((sin ((fst x1 - fst x2) / 2))\<^sup>2
                       + cos (fst x1) * cos (fst x2) * (sin ((snd x1 - snd x2) / 2))\<^sup>2))"

definition exact_dist :: "real \<Rightarrow> real \<Rightarrow> stops_row \<Rightarrow> real" where
  \<comment> \<open>\<^verbatim>\<open>(result[0,1]+result[1,0])/2\<close> of In[17] in exact arithmetic\<close>
  "exact_dist p_lat p_lon st =
     (let loc_rad = (radians p_lat, radians p_lon);
          train_rad = (radians (stop_lat st), radians (stop_lon st))
      in (haversine_distance loc_rad train_rad + haversine_distance train_rad loc_rad) / 2)"

definition near_stop :: stops_row where
  \<comment> \<open>a sample station at latitude 0, longitude 0\<close>
  "near_stop = \<lparr>s_stop_id = ''100'', stop_lat = 0, stop_lon = 0\<rparr>"

definition twin_stop :: stops_row where
  \<comment> \<open>another station at the same place\<close>
  "twin_stop = \<lparr>s_stop_id = ''101'', stop_lat = 0, stop_lon = 0\<rparr>"

definition far_stop :: stops_row where
  \<comment> \<open>a sample station on the other side of the globe: latitude 0, longitude 180\<close>
  "far_stop = \<lparr>s_stop_id = ''200'', stop_lat = 0, stop_lon = 180\<rparr>"

section \<open>Part 5: travel time to Melbourne Central\<close>

text \<open>
  The timetable files: a row of \<^verbatim>\<open>calendar.txt\<close> (the service and the five
  columns after it), of \<^verbatim>\<open>trips.txt\<close> and of \<^verbatim>\<open>stop_times.txt\<close> (columns 0 to 4 of
  \<^verbatim>\<open>st_np\<close>).  \<open>stop_id\<close> holds the text \<^verbatim>\<open>str(st_np[i, 3])\<close> that the code compares.
\<close>

record cal_row =
  cal_service_id :: string
  monday :: int
  tuesday :: int
  wednesday :: int
  thursday :: int
  friday :: int

record trip_row =
  tr_trip_id :: string
  tr_service_id :: string

record st_row =
  trip_id :: string
  arrival_time :: string
  departure_time :: string
  stop_id :: string
  stop_sequence :: int

definition service_list :: "cal_row list \<Rightarrow> string list" where
  \<comment> \<open>In[18]: the services whose five weekday flags sum to 5\<close>
  "service_list calendar =
     map cal_service_id
       (filter (\<lambda>c. monday c + tuesday c + wednesday c + thursday c + friday c = 5) calendar)"

definition trip_set :: "trip_row list \<Rightarrow> string list \<Rightarrow> string set" where
  \<comment> \<open>In[19]\<close>
  "trip_set trips services =
     set (map tr_trip_id (filter (\<lambda>t. tr_service_id t \<in> set services) trips))"

definition mc_trips :: "st_row list \<Rightarrow> string set \<Rightarrow> string set" where
  \<comment> \<open>In[20]: the weekday trips that have a stop-time row at station 19842\<close>
  "mc_trips stop_times ts =
     set (map trip_id (filter (\<lambda>r. trip_id r \<in> ts \<and> stop_id r = ''19842'') stop_times))"

definition fix_arrival :: "st_row \<Rightarrow> error + st_row" where
  \<comment> \<open>In[22], one row: only the column \<^verbatim>\<open>arrival_time\<close> is read and rewritten\<close>
  "fix_arrival r =
     (case py_int (take 2 (arrival_time r)) of
        Inl e \<Rightarrow> Inl e
      | Inr h \<Rightarrow>
          if h = 24 then Inr (r\<lparr>arrival_time := ''00'' @ drop 2 (arrival_time r)\<rparr>)
          else Inr r)"

fun fix_arrivals :: "st_row list \<Rightarrow> error + st_row list" where
  \<comment> \<open>In[22], the loop over the table (its counter \<^verbatim>\<open>n\<close> is only printed)\<close>
  "fix_arrivals [] = Inr []"
| "fix_arrivals (r # rs) =
     (case fix_arrival r of
        Inl e \<Rightarrow> Inl e
      | Inr r' \<Rightarrow> (case fix_arrivals rs of Inl e \<Rightarrow> Inl e | Inr rs' \<Rightarrow> Inr (r' # rs')))"

definition departure_to_00 :: "st_row \<Rightarrow> st_row" where
  \<comment> \<open>Not in the source.  The normalisation the specification describes, applied to the
      departure column: hour 24 becomes hour 00.  Used to compare with the code.\<close>
  "departure_to_00 r =
     (if py_int (take 2 (departure_time r)) = Inr 24
      then r\<lparr>departure_time := ''00'' @ drop 2 (departure_time r)\<rparr> else r)"

fun scan :: "st_row list \<Rightarrow> nat \<Rightarrow> int \<Rightarrow> nat list \<Rightarrow> rat \<times> nat \<Rightarrow> error + rat \<times> nat" where
  \<comment> \<open>In[25], \<^verbatim>\<open>for k in range(1, 32)\<close> for the candidate row \<open>i\<close>; the pair is
      \<^verbatim>\<open>(time_total, number_trips)\<close>, the total a double.  Row \<open>i + k\<close> is read without a bound check, so a
      row past the end of the table is an IndexError.  Only the branch of the sequence
      drop leaves the loop.\<close>
  "scan st_np i seq_begin [] acc = Inr acc"
| "scan st_np i seq_begin (k # ks) acc =
     (if i + k < length st_np then
        (if stop_sequence (st_np ! (i + k)) < seq_begin then Inr acc
         else if stop_id (st_np ! (i + k)) = ''19842'' then
           (case trip_minutes (arrival_time (st_np ! (i + k))) (departure_time (st_np ! i)) of
              Inl e \<Rightarrow> Inl e
            | Inr m \<Rightarrow> scan st_np i seq_begin ks (fl (fst acc + fl m), snd acc + 1))
         else scan st_np i seq_begin ks acc)
      else Inl IndexError)"

fun station_loop ::
  "st_row list \<Rightarrow> string set \<Rightarrow> string \<Rightarrow> nat list \<Rightarrow> rat \<times> nat \<Rightarrow> error + rat \<times> nat" where
  \<comment> \<open>In[25], \<^verbatim>\<open>for i in range(len(st_np))\<close> for the station \<open>sid\<close>\<close>
  "station_loop st_np mc sid [] acc = Inr acc"
| "station_loop st_np mc sid (i # is) acc =
     (if stop_id (st_np ! i) = sid then
        (case py_int (take 2 (departure_time (st_np ! i))) of
           Inl e \<Rightarrow> Inl e
         | Inr hour \<Rightarrow>
             if trip_id (st_np ! i) \<in> mc \<and> 6 < hour \<and> hour < 9 then
               (case scan st_np i (stop_sequence (st_np ! i)) [1..<32] acc of
                  Inl e \<Rightarrow> Inl e
                | Inr acc' \<Rightarrow> station_loop st_np mc sid is acc')
             else station_loop st_np mc sid is acc)
      else station_loop st_np mc sid is acc)"

datatype travel_min = Not_available | Minutes int

definition station_time :: "st_row list \<Rightarrow> string set \<Rightarrow> string \<Rightarrow> error + travel_min" where
  \<comment> \<open>the body of \<^verbatim>\<open>if stop_id not in trip_dict.keys()\<close>: the value stored for the station,
      \<^verbatim>\<open>round\<close> of the quotient of doubles\<close>
  "station_time st_np mc sid =
     (case station_loop st_np mc sid [0..<length st_np] (0, 0) of
        Inl e \<Rightarrow> Inl e
      | Inr acc \<Rightarrow>
          Inr (if snd acc = 0 then Not_available
               else Minutes (py_round (fl (fst acc / of_nat (snd acc))))))"

text \<open>
  \<^verbatim>\<open>trip_dict\<close> is a dictionary in insertion order: an association list with distinct
  keys.  The loop over the properties carries the dictionary and, as an observation
  that the source does not store, the list of stations whose traversal was started.
  An exception ends the loop; what was done until then is returned with it.
\<close>

type_synonym trip_dict = "(string \<times> travel_min) list"

fun fill_trip_dict ::
  "st_row list \<Rightarrow> string set \<Rightarrow> string list \<Rightarrow> trip_dict \<times> string list
     \<Rightarrow> error option \<times> trip_dict \<times> string list" where
  \<comment> \<open>In[25], \<^verbatim>\<open>for j in range(len(cd_np))\<close> over the texts \<^verbatim>\<open>str(cd_np[j, 6])\<close>\<close>
  "fill_trip_dict st_np mc [] st = (None, st)"
| "fill_trip_dict st_np mc (sid # rest) st =
     (if sid \<in> fst ` set (fst st) then fill_trip_dict st_np mc rest st
      else
        (case station_time st_np mc sid of
           Inl e \<Rightarrow> (Some e, fst st, snd st @ [sid])
         | Inr v \<Rightarrow> fill_trip_dict st_np mc rest (fst st @ [(sid, v)], snd st @ [sid])))"

definition travel_time_table ::
  "cal_row list \<Rightarrow> trip_row list \<Rightarrow> st_row list \<Rightarrow> string list
     \<Rightarrow> error option \<times> trip_dict \<times> string list" where
  \<comment> \<open>In[18] to In[25] in the order of the notebook; Melbourne Central itself is entered
      with 0 minutes before the loop\<close>
  "travel_time_table calendar trips stop_times closest =
     (let mc = mc_trips stop_times (trip_set trips (service_list calendar))
      in case fix_arrivals stop_times of
           Inl e \<Rightarrow> (Some e, [], [])
         | Inr st_np \<Rightarrow> fill_trip_dict st_np mc closest ([(''19842'', Minutes 0)], []))"

subsection \<open>Two small timetables\<close>

text \<open>
  One weekday service \<open>W\<close> with the trips \<open>T1\<close>, \<open>T2\<close> and \<open>T3\<close>; station 100 is the
  nearest station of the property.
\<close>

definition weekday_calendar :: "cal_row list" where
  "weekday_calendar =
     [\<lparr>cal_service_id = ''W'', monday = 1, tuesday = 1, wednesday = 1, thursday = 1, friday = 1\<rparr>]"

definition weekday_trips :: "trip_row list" where
  "weekday_trips =
     [\<lparr>tr_trip_id = ''T1'', tr_service_id = ''W''\<rparr>,
      \<lparr>tr_trip_id = ''T2'', tr_service_id = ''W''\<rparr>,
      \<lparr>tr_trip_id = ''T3'', tr_service_id = ''W''\<rparr>]"

definition three_stop_trip :: "st_row list" where
  \<comment> \<open>the trip of the specification's test: sequence numbers 1, 2, 3, departure 07:15:00
      at station 100, arrival 07:42:00 at Melbourne Central; the table ends with it\<close>
  "three_stop_trip =
     [\<lparr>trip_id = ''T1'', arrival_time = ''07:15:00'', departure_time = ''07:15:00'',
       stop_id = ''100'', stop_sequence = 1\<rparr>,
      \<lparr>trip_id = ''T1'', arrival_time = ''07:30:00'', departure_time = ''07:30:00'',
       stop_id = ''200'', stop_sequence = 2\<rparr>,
      \<lparr>trip_id = ''T1'', arrival_time = ''07:42:00'', departure_time = ''07:42:00'',
       stop_id = ''19842'', stop_sequence = 3\<rparr>]"

definition two_trips :: "st_row list" where
  \<comment> \<open>two trips from station 100 (their first stop) to Melbourne Central, 27 minutes
      each, followed by the first row of a third trip with sequence number 0\<close>
  "two_trips =
     [\<lparr>trip_id = ''T1'', arrival_time = ''07:15:00'', departure_time = ''07:15:00'',
       stop_id = ''100'', stop_sequence = 1\<rparr>,
      \<lparr>trip_id = ''T1'', arrival_time = ''07:42:00'', departure_time = ''07:42:00'',
       stop_id = ''19842'', stop_sequence = 2\<rparr>,
      \<lparr>trip_id = ''T2'', arrival_time = ''07:35:00'', departure_time = ''07:35:00'',
       stop_id = ''100'', stop_sequence = 1\<rparr>,
      \<lparr>trip_id = ''T2'', arrival_time = ''08:02:00'', departure_time = ''08:02:00'',
       stop_id = ''19842'', stop_sequence = 2\<rparr>,
      \<lparr>trip_id = ''T3'', arrival_time = ''09:30:00'', departure_time = ''09:30:00'',
       stop_id = ''300'', stop_sequence = 0\<rparr>]"

definition three_durations :: "st_row list" where
  \<comment> \<open>three trips that stop at station 100 second and at Melbourne Central third, after
      600, 1405 and 605 seconds; then the first row of a fourth trip\<close>
  "three_durations =
     [\<lparr>trip_id = ''T1'', arrival_time = ''06:50:00'', departure_time = ''06:50:00'',
       stop_id = ''90'', stop_sequence = 1\<rparr>,
      \<lparr>trip_id = ''T1'', arrival_time = ''07:00:00'', departure_time = ''07:00:00'',
       stop_id = ''100'', stop_sequence = 2\<rparr>,
      \<lparr>trip_id = ''T1'', arrival_time = ''07:10:00'', departure_time = ''07:10:00'',
       stop_id = ''19842'', stop_sequence = 3\<rparr>,
      \<lparr>trip_id = ''T2'', arrival_time = ''07:10:00'', departure_time = ''07:10:00'',
       stop_id = ''90'', stop_sequence = 1\<rparr>,
      \<lparr>trip_id = ''T2'', arrival_time = ''07:20:00'', departure_time = ''07:20:00'',
       stop_id = ''100'', stop_sequence = 2\<rparr>,
      \<lparr>trip_id = ''T2'', arrival_time = ''07:43:25'', departure_time = ''07:43:25'',
       stop_id = ''19842'', stop_sequence = 3\<rparr>,
      \<lparr>trip_id = ''T3'', arrival_time = ''07:50:00'', departure_time = ''07:50:00'',
       stop_id = ''90'', stop_sequence = 1\<rparr>,
      \<lparr>trip_id = ''T3'', arrival_time = ''08:00:00'', departure_time = ''08:00:00'',
       stop_id = ''100'', stop_sequence = 2\<rparr>,
      \<lparr>trip_id = ''T3'', arrival_time = ''08:10:05'', departure_time = ''08:10:05'',
       stop_id = ''19842'', stop_sequence = 3\<rparr>,
      \<lparr>trip_id = ''T4'', arrival_time = ''09:30:00'', departure_time = ''09:30:00'',
       stop_id = ''90'', stop_sequence = 1\<rparr>]"

definition late_row :: st_row where
  \<comment> \<open>a stop after midnight, written with hour 24 in both time columns\<close>
  "late_row = \<lparr>trip_id = ''T1'', arrival_time = ''24:05:00'', departure_time = ''24:05:00'',
                stop_id = ''100'', stop_sequence = 9\<rparr>"

section \<open>Theorems\<close>

subsection \<open>Part 0: one row per source record\<close>


subsection \<open>Part 2: the suburb of a point\<close>

lemma in_suburb_loop_first:
  "in_suburb_loop contains ps p =
     (case filter (\<lambda>e. contains (snd e) p) ps of [] \<Rightarrow> ''not available'' | e # _ \<Rightarrow> fst e)"
  by (induction ps) simp_all


text \<open>
  Claim C6.  When exactly one polygon of \<^verbatim>\<open>suburb_polygons\<close> contains the point,
  \<^verbatim>\<open>in_suburb\<close> returns the name of that polygon; when no polygon contains it, the
  result is the text "not available" (a value, not an exception).  The containment
  test is any predicate.
\<close>

theorem in_suburb_unique_or_none:
  "(filter (\<lambda>e. contains (snd e) (p_lon, p_lat)) suburb_polygons = [(name, poly)] \<longrightarrow>
      in_suburb contains suburb_polygons p_lat p_lon = name)
   \<and> ((\<forall>e \<in> set suburb_polygons. \<not> contains (snd e) (p_lon, p_lat)) \<longrightarrow>
      in_suburb contains suburb_polygons p_lat p_lon = ''not available'')"
proof (intro conjI impI)
  assume "filter (\<lambda>e. contains (snd e) (p_lon, p_lat)) suburb_polygons = [(name, poly)]"
  then show "in_suburb contains suburb_polygons p_lat p_lon = name"
    by (simp add: in_suburb_def in_suburb_loop_first)
next
  assume "\<forall>e \<in> set suburb_polygons. \<not> contains (snd e) (p_lon, p_lat)"
  then have "filter (\<lambda>e. contains (snd e) (p_lon, p_lat)) suburb_polygons = []"
    by (simp add: filter_empty_conv)
  then show "in_suburb contains suburb_polygons p_lat p_lon = ''not available''"
    by (simp add: in_suburb_def in_suburb_loop_first)
qed


text \<open>Witness for C6: a point inside the second of two rectangles, and a point outside
  both.\<close>

theorem in_suburb_unique_or_none_witness:
  "filter (\<lambda>e. box_contains (snd e) (3 / 2, 1 / 2)) two_boxes = [(''FITZROY'', ((1, 0), (2, 1)))]
   \<and> in_suburb box_contains two_boxes (1 / 2) (3 / 2) = ''FITZROY''
   \<and> filter (\<lambda>e. box_contains (snd e) (5, 5)) two_boxes = []
   \<and> in_suburb box_contains two_boxes 5 5 = ''not available''"
proof -
  have f: "filter (\<lambda>e. box_contains (snd e) (3 / 2, 1 / 2)) two_boxes = [(''FITZROY'', ((1, 0), (2, 1)))]"
    by (simp add: two_boxes_def box_contains_def)
  have e: "filter (\<lambda>e. box_contains (snd e) (5, 5)) two_boxes = []"
    by (simp add: two_boxes_def box_contains_def)
  then have n: "\<forall>e \<in> set two_boxes. \<not> box_contains (snd e) (5, 5)"
    by (simp add: filter_empty_conv)
  from in_suburb_unique_or_none [of box_contains "3 / 2" "1 / 2" two_boxes "''FITZROY''" "((1, 0), (2, 1))"] f
  have a: "in_suburb box_contains two_boxes (1 / 2) (3 / 2) = ''FITZROY''" by blast
  from in_suburb_unique_or_none [of box_contains 5 5 two_boxes] n
  have b: "in_suburb box_contains two_boxes 5 5 = ''not available''" by blast
  from f e a b show ?thesis by blast
qed

subsection \<open>Part 3: the pages of the LGA document\<close>

lemma dict_set_keys: "fst ` set (dict_set k v d) = insert k (fst ` set d)"
  by (induction d) auto

lemma dict_set_distinct: "distinct (map fst d) \<Longrightarrow> distinct (map fst (dict_set k v d))"
  by (induction d) (auto simp: dict_set_keys)

lemma dict_set_map_of: "map_of (dict_set k v d) = (map_of d)(k \<mapsto> v)"
  by (induction d) auto

lemma save_page_result:
  assumes "map (\<lambda>x. literal_eval (snd x)) entries = map Inr vs"
  shows "\<exists>d'. save_page literal_eval entries d = Inr d'
           \<and> fst ` set d' = fst ` set d \<union> fst ` set entries
           \<and> (distinct (map fst d) \<longrightarrow> distinct (map fst d'))
           \<and> map_of d' = map_of d ++ map_of (rev (zip (map fst entries) vs))"
  using assms
proof (induction entries arbitrary: d vs)
  case Nil
  then show ?case by simp
next
  case (Cons entry rest)
  from Cons.prems obtain v vs' where vs: "vs = v # vs'"
    and v: "literal_eval (snd entry) = Inr v"
    and rest: "map (\<lambda>x. literal_eval (snd x)) rest = map Inr vs'"
    by (cases vs) auto
  from Cons.IH [OF rest, of "dict_set (fst entry) v d"] obtain d' where
    r: "save_page literal_eval rest (dict_set (fst entry) v d) = Inr d'"
    and k: "fst ` set d' = fst ` set (dict_set (fst entry) v d) \<union> fst ` set rest"
    and dd: "distinct (map fst (dict_set (fst entry) v d)) \<longrightarrow> distinct (map fst d')"
    and m: "map_of d' = map_of (dict_set (fst entry) v d) ++ map_of (rev (zip (map fst rest) vs'))"
    by blast
  have m': "map_of d' = map_of d ++ map_of (rev (zip (map fst (entry # rest)) vs))"
    unfolding m dict_set_map_of vs
    by (simp add: map_add_upd_left map_add_assoc [symmetric] fun_eq_iff map_add_def split: option.splits)
  show ?case
    using r k dd m' v by (auto simp: dict_set_keys dict_set_distinct)
qed


text \<open>
  Claim C7 as stated (equal counts always give that many mapping entries) fails: a
  page with the same header twice and two groups has equal counts 2 and leaves one
  entry, the second group.
\<close>

theorem repeated_header_one_entry:
  "read_page Inr [''YARRA'', ''YARRA''] [''Abbotsford'', ''Richmond''] ([], [])
     = Inr ([(''YARRA'', ''Richmond'')], [])"
  by (simp add: read_page_def)


text \<open>
  Claim C7, amended.  When the number of headers differs from the number of groups,
  the dictionary is unchanged, the line "ERROR: PDF READ IN INCORRECTLY" is printed
  and the run goes on.  When the numbers are equal and every group evaluates, nothing
  is printed, every header of the page is a key afterwards and holds the value of its
  last group, the other keys keep their values, and the dictionary has as many entries
  as there are distinct keys among the old keys and the headers: a page adds one entry
  for each distinct header that was not a key before.
\<close>

theorem read_page_counts:
  fixes literal_eval :: "string \<Rightarrow> error + 'v"
  defines "fixed_sub \<equiv> map (filter (\<lambda>c. c \<noteq> CHR 0x0A))"
  shows "(length LGA \<noteq> length suburbs \<longrightarrow>
            read_page literal_eval LGA suburbs (d, out)
              = Inr (d, out @ [''ERROR: PDF READ IN INCORRECTLY'']))
         \<and> (length LGA = length suburbs \<longrightarrow> map literal_eval (fixed_sub suburbs) = map Inr vs \<longrightarrow>
            (\<exists>d'. read_page literal_eval LGA suburbs (d, out) = Inr (d', out)
               \<and> fst ` set d' = fst ` set d \<union> set LGA
               \<and> map_of d' = map_of d ++ map_of (rev (zip LGA vs))
               \<and> (distinct (map fst d) \<longrightarrow>
                     distinct (map fst d') \<and> length d' = card (fst ` set d \<union> set LGA))))"
proof (intro conjI impI)
  assume "length LGA \<noteq> length suburbs"
  then show "read_page literal_eval LGA suburbs (d, out)
               = Inr (d, out @ [''ERROR: PDF READ IN INCORRECTLY''])"
    by (simp add: read_page_def)
next
  assume len: "length LGA = length suburbs"
    and ev: "map literal_eval (fixed_sub suburbs) = map Inr vs"
  let ?entries = "zip LGA (fixed_sub suburbs)"
  have l2: "length LGA = length (fixed_sub suburbs)" using len by (simp add: fixed_sub_def)
  have "map snd ?entries = fixed_sub suburbs" using l2 by simp
  then have "map literal_eval (map snd ?entries) = map Inr vs" using ev by simp
  then have "map (\<lambda>x. literal_eval (snd x)) ?entries = map Inr vs"
    by (simp add: comp_def)
  from save_page_result [OF this, of d] obtain d' where
    r: "save_page literal_eval ?entries d = Inr d'"
    and k: "fst ` set d' = fst ` set d \<union> fst ` set ?entries"
    and dd: "distinct (map fst d) \<longrightarrow> distinct (map fst d')"
    and m: "map_of d' = map_of d ++ map_of (rev (zip (map fst ?entries) vs))"
    by blast
  have f: "map fst ?entries = LGA" using l2 by simp
  have k': "fst ` set d' = fst ` set d \<union> set LGA"
    using k f by (metis image_set)
  have c: "length d' = card (fst ` set d \<union> set LGA)" if "distinct (map fst d)"
  proof -
    from that dd have "distinct (map fst d')" by simp
    then have "card (set (map fst d')) = length (map fst d')" by (rule distinct_card)
    then show ?thesis using k' by simp
  qed
  show "\<exists>d'. read_page literal_eval LGA suburbs (d, out) = Inr (d', out)
               \<and> fst ` set d' = fst ` set d \<union> set LGA
               \<and> map_of d' = map_of d ++ map_of (rev (zip LGA vs))
               \<and> (distinct (map fst d) \<longrightarrow>
                     distinct (map fst d') \<and> length d' = card (fst ` set d \<union> set LGA))"
    using r k' m f dd c len by (intro exI [of _ d']) (simp add: read_page_def fixed_sub_def)
qed


text \<open>Witness for C7: two headers with one group, and two headers with two groups.\<close>

theorem read_page_counts_witness:
  "length [''YARRA'', ''HUME''] \<noteq> length [''Abbotsford'']
   \<and> read_page Inr [''YARRA'', ''HUME''] [''Abbotsford''] ([], [])
       = Inr ([], [''ERROR: PDF READ IN INCORRECTLY''])
   \<and> length [''YARRA'', ''HUME''] = length [''Abbotsford'', ''Sunbury'']
   \<and> distinct (map fst ([] :: (string \<times> string) list))
   \<and> (\<exists>d'. read_page Inr [''YARRA'', ''HUME''] [''Abbotsford'', ''Sunbury''] ([], []) = Inr (d', [])
          \<and> map_of d' ''HUME'' = Some ''Sunbury'' \<and> length d' = 2)"
proof -
  have n: "length [''YARRA'', ''HUME''] \<noteq> length [''Abbotsford'']" by simp
  have l: "length [''YARRA'', ''HUME''] = length [''Abbotsford'', ''Sunbury'']" by simp
  have e: "map Inr (map (filter (\<lambda>c. c \<noteq> CHR 0x0A)) [''Abbotsford'', ''Sunbury''])
             = (map Inr [''Abbotsford'', ''Sunbury''] :: (error + string) list)" by simp
  have d: "distinct (map fst ([] :: (string \<times> string) list))" by simp
  from read_page_counts [where LGA = "[''YARRA'', ''HUME'']" and suburbs = "[''Abbotsford'']"
      and literal_eval = Inr and d = "[]" and out = "[]"] n
  have a: "read_page Inr [''YARRA'', ''HUME''] [''Abbotsford''] ([], [])
             = Inr ([] :: (string \<times> string) list, [''ERROR: PDF READ IN INCORRECTLY''])"
    by simp
  from read_page_counts [where LGA = "[''YARRA'', ''HUME'']" and suburbs = "[''Abbotsford'', ''Sunbury'']"
      and literal_eval = Inr and vs = "[''Abbotsford'', ''Sunbury'']" and d = "[]" and out = "[]"] l e d
  obtain d' :: "(string \<times> string) list" where
    r: "read_page Inr [''YARRA'', ''HUME''] [''Abbotsford'', ''Sunbury''] ([], []) = Inr (d', [])"
    and m: "map_of d' = map_of [] ++ map_of (rev (zip [''YARRA'', ''HUME''] [''Abbotsford'', ''Sunbury'']))"
    and c: "length d' = card (fst ` set ([] :: (string \<times> string) list) \<union> set [''YARRA'', ''HUME''])"
    by auto
  from m have m': "map_of d' ''HUME'' = Some ''Sunbury''" by simp
  from c have c': "length d' = 2" by simp
  from n l d a r m' c' show ?thesis by blast
qed


subsection \<open>Part 3: the LGA of a property\<close>

lemma lga_values_eq:
  "lga_values suburb key vs cell = (if filter (lga_match suburb) vs = [] then cell else key)"
  by (induction vs arbitrary: cell) simp_all

lemma lga_pairs_Cons:
  "lga_pairs (item # rest) = map (Pair (fst item)) (snd item) @ lga_pairs rest"
  by (simp add: lga_pairs_def)

lemma filter_pairs:
  "filter (\<lambda>p. lga_match suburb (snd p)) (map (Pair key) vs)
     = map (Pair key) (filter (lga_match suburb) vs)"
  by (induction vs) simp_all

lemma lga_fill_eq:
  "lga_fill suburb d cell =
     (if filter (\<lambda>p. lga_match suburb (snd p)) (lga_pairs d) = [] then cell
      else fst (last (filter (\<lambda>p. lga_match suburb (snd p)) (lga_pairs d))))"
proof (induction d arbitrary: cell)
  case Nil
  then show ?case by (simp add: lga_pairs_def)
next
  case (Cons item rest)
  show ?case
  proof (cases "filter (\<lambda>p. lga_match suburb (snd p)) (lga_pairs rest) = []")
    case True
    then show ?thesis
      by (simp add: Cons.IH lga_values_eq lga_pairs_Cons filter_pairs last_map)
  next
    case False
    then show ?thesis
      by (simp add: Cons.IH lga_pairs_Cons filter_pairs)
  qed
qed


text \<open>
  Claim C3 as stated (the first match wins) fails: the loops of In[14] have no
  \<^verbatim>\<open>break\<close> and write the cell at every match.  For a suburb listed under two
  regions the code leaves the later region, the first-match lookup gives the earlier.
\<close>

theorem lga_first_match_counterexample:
  "lga_fill ''CARLTON'' shared_suburb ''not available'' = ''YARRA''
   \<and> lga_first_match ''CARLTON'' shared_suburb ''not available'' = ''MELBOURNE''"
  by code_simp


text \<open>
  Claim C3, amended.  The scan visits all (region, suburb) pairs in order; a pair
  matches when both texts are non-empty and equal after lower-casing.  The property
  gets the region of the last matching pair; when no pair matches, its cell is left
  as it was, which is "not available".
\<close>

theorem lga_fill_last_match:
  "(filter (\<lambda>p. lga_match suburb (snd p)) (lga_pairs LGA_dict) = [] \<longrightarrow>
      lga_fill suburb LGA_dict cell = cell)
   \<and> (filter (\<lambda>p. lga_match suburb (snd p)) (lga_pairs LGA_dict) \<noteq> [] \<longrightarrow>
      lga_fill suburb LGA_dict cell
        = fst (last (filter (\<lambda>p. lga_match suburb (snd p)) (lga_pairs LGA_dict))))"
  by (simp add: lga_fill_eq)

text \<open>Witness for C3: a suburb listed under two regions, and a suburb listed nowhere.\<close>

theorem lga_fill_last_match_witness:
  "filter (\<lambda>p. lga_match ''CARLTON'' (snd p)) (lga_pairs shared_suburb)
     = [(''MELBOURNE'', ''Carlton''), (''YARRA'', ''CARLTON'')]
   \<and> lga_fill ''CARLTON'' shared_suburb ''not available'' = ''YARRA''
   \<and> filter (\<lambda>p. lga_match ''KEW'' (snd p)) (lga_pairs shared_suburb) = []
   \<and> lga_fill ''KEW'' shared_suburb ''not available'' = ''not available''"
proof -
  have a: "filter (\<lambda>p. lga_match ''CARLTON'' (snd p)) (lga_pairs shared_suburb)
             = [(''MELBOURNE'', ''Carlton''), (''YARRA'', ''CARLTON'')]"
    by code_simp
  have b: "filter (\<lambda>p. lga_match ''KEW'' (snd p)) (lga_pairs shared_suburb) = []"
    by code_simp
  from lga_fill_last_match [of "''CARLTON''" shared_suburb "''not available''"] a
  have c: "lga_fill ''CARLTON'' shared_suburb ''not available'' = ''YARRA''" by simp
  from lga_fill_last_match [of "''KEW''" shared_suburb "''not available''"] b
  have d: "lga_fill ''KEW'' shared_suburb ''not available'' = ''not available''" by blast
  from a b c d show ?thesis by blast
qed

subsection \<open>Part 4: the closest station\<close>

lemma nearest_loop_keep:
  assumes "\<forall>st \<in> set stops. min_dist s \<le> result_dist p_lat p_lon st"
  shows "nearest_loop result_dist p_lat p_lon stops s = s"
  using assms by (induction stops) auto

lemma nearest_loop_first_min:
  assumes "\<exists>st \<in> set stops. result_dist p_lat p_lon st < min_dist s"
  shows "\<exists>i < length stops.
           nearest_loop result_dist p_lat p_lon stops s
             = \<lparr>min_dist = result_dist p_lat p_lon (stops ! i), dist_changed = True,
                closest_id = s_stop_id (stops ! i)\<rparr>
           \<and> result_dist p_lat p_lon (stops ! i) < min_dist s
           \<and> (\<forall>j < length stops. result_dist p_lat p_lon (stops ! i) \<le> result_dist p_lat p_lon (stops ! j))
           \<and> (\<forall>j < i. result_dist p_lat p_lon (stops ! i) < result_dist p_lat p_lon (stops ! j))"
  using assms
proof (induction stops arbitrary: s)
  case Nil
  then show ?case by simp
next
  case (Cons st rest)
  let ?d = "result_dist p_lat p_lon"
  let ?new = "\<lparr>min_dist = ?d st, dist_changed = True, closest_id = s_stop_id st\<rparr>"
  show ?case
  proof (cases "?d st < min_dist s")
    case True
    show ?thesis
    proof (cases "\<exists>x \<in> set rest. ?d x < ?d st")
      case better: True
      then have "\<exists>x \<in> set rest. ?d x < min_dist ?new" by simp
      from Cons.IH [OF this] obtain i where i: "i < length rest"
        and r: "nearest_loop result_dist p_lat p_lon rest ?new
                  = \<lparr>min_dist = ?d (rest ! i), dist_changed = True, closest_id = s_stop_id (rest ! i)\<rparr>"
        and lt: "?d (rest ! i) < ?d st"
        and mn: "\<forall>j < length rest. ?d (rest ! i) \<le> ?d (rest ! j)"
        and fs: "\<forall>j < i. ?d (rest ! i) < ?d (rest ! j)"
        by auto
      show ?thesis
      proof (intro exI [of _ "Suc i"] conjI allI impI)
        show "Suc i < length (st # rest)" using i by simp
        show "nearest_loop result_dist p_lat p_lon (st # rest) s
                = \<lparr>min_dist = ?d ((st # rest) ! Suc i), dist_changed = True,
                   closest_id = s_stop_id ((st # rest) ! Suc i)\<rparr>"
          using True r by simp
        show "?d ((st # rest) ! Suc i) < min_dist s" using lt True by simp
        show "?d ((st # rest) ! Suc i) \<le> ?d ((st # rest) ! j)" if "j < length (st # rest)" for j
          using that mn lt by (cases j) auto
        show "?d ((st # rest) ! Suc i) < ?d ((st # rest) ! j)" if "j < Suc i" for j
          using that fs lt by (cases j) auto
      qed
    next
      case none: False
      then have "\<forall>x \<in> set rest. min_dist ?new \<le> ?d x" by auto
      from nearest_loop_keep [where result_dist = result_dist and p_lat = p_lat and p_lon = p_lon, OF this]
      have r: "nearest_loop result_dist p_lat p_lon (st # rest) s = ?new" using True by simp
      show ?thesis
      proof (intro exI [of _ 0] conjI allI impI)
        show "0 < length (st # rest)" by simp
        show "nearest_loop result_dist p_lat p_lon (st # rest) s
                = \<lparr>min_dist = ?d ((st # rest) ! 0), dist_changed = True,
                   closest_id = s_stop_id ((st # rest) ! 0)\<rparr>"
          using r by simp
        show "?d ((st # rest) ! 0) < min_dist s" using True by simp
        show "?d ((st # rest) ! 0) \<le> ?d ((st # rest) ! j)" if "j < length (st # rest)" for j
          using that none by (cases j) (auto simp: not_less)
        show "?d ((st # rest) ! 0) < ?d ((st # rest) ! j)" if "j < 0" for j
          using that by simp
      qed
    qed
  next
    case False
    with Cons.prems have "\<exists>x \<in> set rest. ?d x < min_dist s" by auto
    from Cons.IH [OF this] obtain i where i: "i < length rest"
      and r: "nearest_loop result_dist p_lat p_lon rest s
                = \<lparr>min_dist = ?d (rest ! i), dist_changed = True, closest_id = s_stop_id (rest ! i)\<rparr>"
      and lt: "?d (rest ! i) < min_dist s"
      and mn: "\<forall>j < length rest. ?d (rest ! i) \<le> ?d (rest ! j)"
      and fs: "\<forall>j < i. ?d (rest ! i) < ?d (rest ! j)"
      by auto
    show ?thesis
    proof (intro exI [of _ "Suc i"] conjI allI impI)
      show "Suc i < length (st # rest)" using i by simp
      show "nearest_loop result_dist p_lat p_lon (st # rest) s
              = \<lparr>min_dist = ?d ((st # rest) ! Suc i), dist_changed = True,
                 closest_id = s_stop_id ((st # rest) ! Suc i)\<rparr>"
        using False r by simp
      show "?d ((st # rest) ! Suc i) < min_dist s" using lt by simp
      show "?d ((st # rest) ! Suc i) \<le> ?d ((st # rest) ! j)" if "j < length (st # rest)" for j
        using that mn lt False by (cases j) auto
      show "?d ((st # rest) ! Suc i) < ?d ((st # rest) ! j)" if "j < Suc i" for j
        using that fs lt False by (cases j) auto
    qed
  qed
qed


lemma exact_dist_far: "exact_dist 0 0 far_stop = pi"
  by (simp add: exact_dist_def haversine_distance_def radians_def far_stop_def)

lemma exact_dist_near: "exact_dist 0 0 near_stop = 0"
  by (simp add: exact_dist_def haversine_distance_def radians_def near_stop_def)

lemma exact_dist_twin: "exact_dist 0 0 twin_stop = 0"
  by (simp add: exact_dist_def haversine_distance_def radians_def twin_stop_def)

text \<open>
  Claim C5 as stated (for every property the station of minimal distance is returned)
  fails: the running minimum starts at 1 radian.  A station set whose only station is
  at angle \<open>pi\<close> from the property (the double computed there is 3.141592653589793)
  has a station of minimal distance, and the row keeps its defaults.
\<close>

theorem far_station_not_returned:
  "exact_dist 0 0 far_stop = pi \<and> nearest_station exact_dist (*) 0 0 [far_stop] [] = None"
  using pi_ge_two by (simp add: nearest_station_def exact_dist_far)

text \<open>
  Claim C5, amended.  The distances are the doubles that In[17] computes and compares,
  whatever they are.  When some station has a computed distance below 1, the finder
  returns the identifier of the first station in table order whose computed distance
  is minimal over the whole station set (every earlier station has a strictly greater
  one), with the product, in double arithmetic, of that distance and 6378 as the
  distance in kilometres.  When no station has a computed distance below 1, the row
  keeps its defaults.
\<close>

theorem nearest_station_within_one_radian:
  "((\<forall>st \<in> set stops. 1 \<le> result_dist p_lat p_lon st) \<longrightarrow>
      nearest_station result_dist multiply p_lat p_lon stops previous = None)
   \<and> ((\<exists>st \<in> set stops. result_dist p_lat p_lon st < 1) \<longrightarrow>
      (\<exists>i < length stops.
         nearest_station result_dist multiply p_lat p_lon stops previous
           = Some (s_stop_id (stops ! i), multiply (result_dist p_lat p_lon (stops ! i)) 6378)
         \<and> (\<forall>j < length stops. result_dist p_lat p_lon (stops ! i) \<le> result_dist p_lat p_lon (stops ! j))
         \<and> (\<forall>j < i. result_dist p_lat p_lon (stops ! i) < result_dist p_lat p_lon (stops ! j))))"
proof (intro conjI impI)
  let ?s0 = "\<lparr>min_dist = 1, dist_changed = False, closest_id = previous\<rparr>"
  assume "\<forall>st \<in> set stops. 1 \<le> result_dist p_lat p_lon st"
  then have "\<forall>st \<in> set stops. min_dist ?s0 \<le> result_dist p_lat p_lon st" by simp
  from nearest_loop_keep [where result_dist = result_dist and p_lat = p_lat and p_lon = p_lon, OF this]
  show "nearest_station result_dist multiply p_lat p_lon stops previous = None"
    by (simp add: nearest_station_def)
next
  let ?s0 = "\<lparr>min_dist = 1, dist_changed = False, closest_id = previous\<rparr>"
  assume "\<exists>st \<in> set stops. result_dist p_lat p_lon st < 1"
  then have "\<exists>st \<in> set stops. result_dist p_lat p_lon st < min_dist ?s0" by simp
  from nearest_loop_first_min [where result_dist = result_dist and p_lat = p_lat and p_lon = p_lon, OF this] obtain i where "i < length stops"
    "nearest_loop result_dist p_lat p_lon stops ?s0
       = \<lparr>min_dist = result_dist p_lat p_lon (stops ! i), dist_changed = True,
          closest_id = s_stop_id (stops ! i)\<rparr>"
    "\<forall>j < length stops. result_dist p_lat p_lon (stops ! i) \<le> result_dist p_lat p_lon (stops ! j)"
    "\<forall>j < i. result_dist p_lat p_lon (stops ! i) < result_dist p_lat p_lon (stops ! j)"
    by blast
  then show "\<exists>i < length stops.
         nearest_station result_dist multiply p_lat p_lon stops previous
           = Some (s_stop_id (stops ! i), multiply (result_dist p_lat p_lon (stops ! i)) 6378)
         \<and> (\<forall>j < length stops. result_dist p_lat p_lon (stops ! i) \<le> result_dist p_lat p_lon (stops ! j))
         \<and> (\<forall>j < i. result_dist p_lat p_lon (stops ! i) < result_dist p_lat p_lon (stops ! j))"
    by (intro exI [of _ i]) (simp add: nearest_station_def)
qed


text \<open>Witness for C5: the far station alone; and the far station followed by two
  stations with different identifiers at the property's own position, of which the
  first is returned.\<close>

theorem nearest_station_within_one_radian_witness:
  "1 \<le> exact_dist 0 0 far_stop
   \<and> nearest_station exact_dist (*) 0 0 [far_stop] [] = None
   \<and> exact_dist 0 0 near_stop < 1
   \<and> exact_dist 0 0 twin_stop = exact_dist 0 0 near_stop
   \<and> nearest_station exact_dist (*) 0 0 [far_stop, near_stop, twin_stop] [] = Some (''100'', 0)"
proof -
  let ?stops = "[far_stop, near_stop, twin_stop]"
  have f: "1 \<le> exact_dist 0 0 far_stop"
    using pi_ge_two by (simp add: exact_dist_far)
  have n: "exact_dist 0 0 near_stop < 1"
    by (simp add: exact_dist_near)
  have t: "exact_dist 0 0 twin_stop = exact_dist 0 0 near_stop"
    by (simp add: exact_dist_near exact_dist_twin)
  from f have h1: "\<forall>st \<in> set [far_stop]. 1 \<le> exact_dist 0 0 st"
    by simp
  from n have h2: "\<exists>st \<in> set ?stops. exact_dist 0 0 st < 1"
    by simp
  from nearest_station_within_one_radian [of "[far_stop]" exact_dist 0 0 "(*)" "[]"] h1
  have a: "nearest_station exact_dist (*) 0 0 [far_stop] [] = None" by blast
  from nearest_station_within_one_radian [of ?stops exact_dist 0 0 "(*)" "[]"] h2
  obtain i where i: "i < length ?stops"
    and r: "nearest_station exact_dist (*) 0 0 ?stops []
              = Some (s_stop_id (?stops ! i), exact_dist 0 0 (?stops ! i) * 6378)"
    and m: "\<forall>j < length ?stops. exact_dist 0 0 (?stops ! i) \<le> exact_dist 0 0 (?stops ! j)"
    and s: "\<forall>j < i. exact_dist 0 0 (?stops ! i) < exact_dist 0 0 (?stops ! j)"
    by blast
  from m have "exact_dist 0 0 (?stops ! i) \<le> exact_dist 0 0 near_stop"
    by (auto dest: spec [of _ 1])
  then have i0: "i \<noteq> 0"
    using pi_ge_two by (cases i) (simp_all add: exact_dist_far exact_dist_near)
  have i2: "i \<noteq> 2"
  proof
    assume "i = 2"
    with s have "\<forall>j < 2. exact_dist 0 0 (?stops ! 2) < exact_dist 0 0 (?stops ! j)" by simp
    then have "exact_dist 0 0 (?stops ! 2) < exact_dist 0 0 (?stops ! 1)" by (elim allE [of _ 1]) simp
    then show False by (simp add: exact_dist_near exact_dist_twin)
  qed
  from i i0 i2 have "i = 1" by simp
  then have "?stops ! i = near_stop" by simp
  moreover have "s_stop_id near_stop = ''100''" by (simp add: near_stop_def)
  ultimately have b: "nearest_station exact_dist (*) 0 0 ?stops [] = Some (''100'', 0)"
    using r by (simp add: exact_dist_near)
  from f n t a b show ?thesis by blast
qed

subsection \<open>Part 5: hour 24\<close>

lemma py_int_24: "py_int ''24'' = Inr 24" by code_simp

lemma py_int_00: "py_int ''00'' = Inr 0" by code_simp

lemma departure_to_00_fields:
  "trip_id (departure_to_00 r) = trip_id r"
  "arrival_time (departure_to_00 r) = arrival_time r"
  "stop_id (departure_to_00 r) = stop_id r"
  "stop_sequence (departure_to_00 r) = stop_sequence r"
  by (simp_all add: departure_to_00_def)

lemma departure_to_00_hour:
  "py_int (take 2 (departure_time (departure_to_00 r))) =
     (if py_int (take 2 (departure_time r)) = Inr 24 then Inr 0
      else py_int (take 2 (departure_time r)))"
  by (simp add: departure_to_00_def py_int_00)

lemma departure_to_00_same:
  "py_int (take 2 (departure_time r)) \<noteq> Inr 24 \<Longrightarrow> departure_to_00 r = r"
  by (simp add: departure_to_00_def)

lemma scan_departure_to_00:
  assumes "i < length t" and "departure_to_00 (t ! i) = t ! i"
  shows "scan (map departure_to_00 t) i sb ks acc = scan t i sb ks acc"
  using assms
proof (induction ks arbitrary: acc)
  case Nil
  then show ?case by simp
next
  case (Cons k ks)
  then show ?case
    by (simp add: departure_to_00_fields split: sum.splits)
qed

lemma station_loop_departure_to_00:
  assumes "\<forall>i \<in> set is. i < length t"
  shows "station_loop (map departure_to_00 t) mc sid is acc = station_loop t mc sid is acc"
  using assms
proof (induction "is" arbitrary: acc)
  case Nil
  then show ?case by simp
next
  case (Cons i "is")
  then have i: "i < length t" and rest: "\<forall>j \<in> set is. j < length t" by simp_all
  note IH = Cons.IH [OF rest]
  show ?case
  proof (cases "py_int (take 2 (departure_time (t ! i))) = Inr 24")
    case True
    then show ?thesis
      using i IH by (simp add: departure_to_00_fields departure_to_00_hour)
  next
    case False
    then have same: "departure_to_00 (t ! i) = t ! i" by (rule departure_to_00_same)
    show ?thesis
      using i IH same scan_departure_to_00 [OF i same]
      by (simp split: sum.splits)
  qed
qed

lemma station_time_departure_to_00:
  "station_time (map departure_to_00 t) mc sid = station_time t mc sid"
  using station_loop_departure_to_00 [of "[0..<length t]" t mc sid "(0, 0)"]
  by (simp add: station_time_def)

lemma fix_arrival_departure_to_00:
  "fix_arrival (departure_to_00 r) =
     (case fix_arrival r of Inl e \<Rightarrow> Inl e | Inr r' \<Rightarrow> Inr (departure_to_00 r'))"
  by (cases "py_int (take 2 (arrival_time r))")
     (auto simp: fix_arrival_def departure_to_00_def)

lemma fix_arrivals_departure_to_00:
  "fix_arrivals (map departure_to_00 t) =
     (case fix_arrivals t of Inl e \<Rightarrow> Inl e | Inr t' \<Rightarrow> Inr (map departure_to_00 t'))"
  by (induction t) (simp_all add: fix_arrival_departure_to_00 split: sum.splits)

lemma mc_trips_departure_to_00:
  "mc_trips (map departure_to_00 t) ts = mc_trips t ts"
  by (simp add: mc_trips_def filter_map comp_def departure_to_00_fields)

lemma fill_trip_dict_departure_to_00:
  "fill_trip_dict (map departure_to_00 t) mc closest st = fill_trip_dict t mc closest st"
  by (induction closest arbitrary: st)
     (simp_all add: station_time_departure_to_00 split: sum.splits)


text \<open>
  Claim C2 as stated (every timestamp with hour 24 is rewritten to hour 00, arrival
  and departure alike) fails: In[22] reads and writes the arrival column only.  After
  it the row still holds the departure time 24:05:00.
\<close>

theorem departure_hour_24_kept:
  "fix_arrivals [late_row]
     = Inr [\<lparr>trip_id = ''T1'', arrival_time = ''00:05:00'', departure_time = ''24:05:00'',
             stop_id = ''100'', stop_sequence = 9\<rparr>]"
  by code_simp


text \<open>
  Claim C2, amended.  Before the travel times are computed, every arrival time that
  starts with hour 24 is rewritten to hour 00 with the rest of the text unchanged, so
  an arrival 24:05:00 enters the subtraction as 00:05:00.  Departure times are not
  rewritten, and this changes nothing: the travel-time table computed from a
  timetable is the same as the one computed after rewriting its departure times of
  hour 24 to hour 00, because a departure of hour 24, like one of hour 00, is outside
  the window of hours 7 and 8 and never reaches the subtraction.
\<close>

theorem only_arrivals_normalised:
  "(arrival_time r = ''24'' @ rest \<longrightarrow>
      fix_arrival r = Inr (r\<lparr>arrival_time := ''00'' @ rest\<rparr>))
   \<and> (\<forall>r'. fix_arrival r = Inr r' \<longrightarrow> departure_time r' = departure_time r)
   \<and> travel_time_table calendar trips (map departure_to_00 stop_times) closest
       = travel_time_table calendar trips stop_times closest"
proof (intro conjI impI allI)
  assume "arrival_time r = ''24'' @ rest"
  then show "fix_arrival r = Inr (r\<lparr>arrival_time := ''00'' @ rest\<rparr>)"
    by (simp add: fix_arrival_def py_int_24)
next
  fix r' assume "fix_arrival r = Inr r'"
  then show "departure_time r' = departure_time r"
    by (auto simp: fix_arrival_def split: sum.splits if_splits)
next
  show "travel_time_table calendar trips (map departure_to_00 stop_times) closest
          = travel_time_table calendar trips stop_times closest"
    by (simp add: travel_time_table_def mc_trips_departure_to_00 fix_arrivals_departure_to_00
          fill_trip_dict_departure_to_00 split: sum.splits)
qed


text \<open>Witness for C2: the row with both times 24:05:00.\<close>

theorem only_arrivals_normalised_witness:
  "arrival_time late_row = ''24'' @ '':05:00''
   \<and> fix_arrival late_row = Inr (late_row\<lparr>arrival_time := ''00:05:00''\<rparr>)
   \<and> departure_time (late_row\<lparr>arrival_time := ''00:05:00''\<rparr>) = ''24:05:00''
   \<and> travel_time_table weekday_calendar weekday_trips (map departure_to_00 [late_row]) [''100'']
       = travel_time_table weekday_calendar weekday_trips [late_row] [''100'']"
proof -
  have a: "arrival_time late_row = ''24'' @ '':05:00''" by (simp add: late_row_def)
  note t = only_arrivals_normalised [of late_row "'':05:00''" weekday_calendar weekday_trips
      "[late_row]" "[''100'']"]
  from t a have f: "fix_arrival late_row = Inr (late_row\<lparr>arrival_time := ''00'' @ '':05:00''\<rparr>)"
    by blast
  from t f have "departure_time (late_row\<lparr>arrival_time := ''00'' @ '':05:00''\<rparr>) = departure_time late_row"
    by blast
  then have d: "departure_time (late_row\<lparr>arrival_time := ''00:05:00''\<rparr>) = ''24:05:00''"
    by (simp add: late_row_def)
  from t have "travel_time_table weekday_calendar weekday_trips (map departure_to_00 [late_row]) [''100'']
       = travel_time_table weekday_calendar weekday_trips [late_row] [''100'']"
    by blast
  with a f d show ?thesis by simp
qed


subsection \<open>Part 5: elapsed minutes\<close>

lemma digit_val_nonneg: "is_digit c \<Longrightarrow> 0 \<le> digit_val c"
  by (simp add: is_digit_def digit_val_def Let_def)

lemma foldl_digits_nonneg:
  "0 \<le> a \<Longrightarrow> 0 \<le> foldl (\<lambda>a c. 10 * a + digit_val c) a (filter is_digit s)"
  by (induction s arbitrary: a) (simp_all add: digit_val_nonneg)

lemma digits_val_nonneg: "0 \<le> digits_val s"
  by (simp add: digits_val_def foldl_digits_nonneg)

lemma time_field_range: "time_field bound s = Inr v \<Longrightarrow> 0 \<le> v \<and> v \<le> bound"
  by (auto simp: time_field_def digits_val_nonneg split: if_splits)

lemma strptime_range:
  assumes "strptime s = Inr t"
  shows "0 \<le> second_of_day t \<and> second_of_day t < 86400"
proof -
  from assms obtain h m sec a b c where
    "time_field 23 h = Inr a" "time_field 59 m = Inr b" "time_field 59 sec = Inr c" "t = (a, b, c)"
    by (auto simp: strptime_def split: list.splits sum.splits)
  then show ?thesis
    using time_field_range [of 23 h a] time_field_range [of 59 m b] time_field_range [of 59 sec c]
    by (simp add: second_of_day_def)
qed


lemma timedelta_seconds_range: "0 \<le> timedelta_seconds a d \<and> timedelta_seconds a d < 86400"
  by (simp add: timedelta_seconds_def)

lemma wrap_negative:
  fixes x :: int
  assumes "x < 0" and "- 86400 < x"
  shows "x mod 86400 = 86400 - (- x)"
proof -
  have "(x + 86400) mod 86400 = x + 86400"
    using assms by (intro mod_pos_pos_trivial) simp_all
  then show ?thesis by simp
qed


text \<open>
  Claim C10.  Every elapsed time the Schedule Router records is
  \<^verbatim>\<open>delta_t.seconds/60\<close> for the destination arrival and the origin departure of the
  candidate.  Whenever both texts parse, the recorded value exists (no error), is the
  difference of the two times of day taken modulo 24 hours, and lies in the interval
  from 0 (included) to 1440 (excluded) minutes; an arrival earlier in the day than the
  departure gives 1440 minutes less the gap, not a negative number.
\<close>

theorem trip_minutes_range:
  assumes "strptime arr = Inr a" and "strptime dep = Inr d"
  shows "\<exists>m. trip_minutes arr dep = Inr m \<and> 0 \<le> m \<and> m < 1440
           \<and> m = of_int ((second_of_day a - second_of_day d) mod 86400) / 60
           \<and> (second_of_day a < second_of_day d \<longrightarrow>
                m = 1440 - of_int (second_of_day d - second_of_day a) / 60)"
proof -
  let ?s = "timedelta_seconds a d"
  have m: "trip_minutes arr dep = Inr (of_int ?s / 60)"
    using assms by (simp add: trip_minutes_def)
  have r: "0 \<le> ?s" "?s < 86400"
    using timedelta_seconds_range [of a d] by simp_all
  have lo: "(0::rat) \<le> of_int ?s / 60"
    using r(1) by simp
  have "(of_int ?s :: rat) < of_int 86400"
    using r(2) by (simp only: of_int_less_iff)
  then have hi: "(of_int ?s :: rat) / 60 < 1440"
    by simp
  have early: "of_int ?s / 60 = (1440::rat) - of_int (second_of_day d - second_of_day a) / 60"
    if lt: "second_of_day a < second_of_day d"
  proof -
    let ?g = "second_of_day d - second_of_day a"
    have "?g < 86400"
      using strptime_range [OF assms(1)] strptime_range [OF assms(2)] by simp
    with lt have "(second_of_day a - second_of_day d) mod 86400
            = 86400 - (- (second_of_day a - second_of_day d))"
      by (intro wrap_negative) simp_all
    then have "?s = 86400 - ?g"
      by (simp add: timedelta_seconds_def)
    then show ?thesis by (simp add: field_simps)
  qed
  show ?thesis
  proof (intro exI conjI impI)
    show "trip_minutes arr dep = Inr (of_int ?s / 60)" by (rule m)
    show "(0::rat) \<le> of_int ?s / 60" by (rule lo)
    show "(of_int ?s :: rat) / 60 < 1440" by (rule hi)
    show "(of_int ?s :: rat) / 60
            = of_int ((second_of_day a - second_of_day d) mod 86400) / 60"
      by (simp only: timedelta_seconds_def)
    show "of_int ?s / 60 = (1440::rat) - of_int (second_of_day d - second_of_day a) / 60"
      if "second_of_day a < second_of_day d"
      using that by (rule early)
  qed
qed

text \<open>Witness for C10: arrival 07:10:00, five minutes before the departure 07:15:00,
  is recorded as 1435 minutes.\<close>

theorem trip_minutes_range_witness:
  "strptime ''07:10:00'' = Inr (7, 10, 0) \<and> strptime ''07:15:00'' = Inr (7, 15, 0)
   \<and> second_of_day (7, 10, 0) < second_of_day (7, 15, 0)
   \<and> trip_minutes ''07:10:00'' ''07:15:00'' = Inr 1435"
proof -
  have a: "strptime ''07:10:00'' = Inr (7, 10, 0)" by code_simp
  have d: "strptime ''07:15:00'' = Inr (7, 15, 0)" by code_simp
  have lt: "second_of_day (7, 10, 0) < second_of_day (7, 15, 0)"
    by (simp add: second_of_day_def)
  obtain m where m: "trip_minutes ''07:10:00'' ''07:15:00'' = Inr m"
    and e: "second_of_day (7, 10, 0) < second_of_day (7, 15, 0) \<longrightarrow>
            m = 1440 - of_int (second_of_day (7, 15, 0) - second_of_day (7, 10, 0)) / 60"
    using trip_minutes_range [OF a d] by blast
  from e lt have "m = 1440 - of_int (second_of_day (7, 15, 0) - second_of_day (7, 10, 0)) / 60"
    by blast
  then have "m = 1435" by (simp add: second_of_day_def)
  with m a d lt show ?thesis by simp
qed

subsection \<open>Part 5: the forward scan\<close>

text \<open>
  The stored value is rounded from the double mean of the double total: trips of 600,
  1405 and 605 seconds give 14.500000000000002, stored as 15, where the exact mean
  14.5 would be stored as 14.
\<close>

lemma station_time_double_mean:
  "station_time three_durations {''T1'', ''T2'', ''T3''} ''100'' = Inr (Minutes 15)
   \<and> py_round ((10 + 1405 / 60 + 605 / 60) / 3) = 14"
  by code_simp

text \<open>
  Claim C9 (the forward scan never reads a row outside the stop-times table; no input
  ends the run).  The code reads row \<open>i + k\<close> unguarded.  On the three-stop trip of the
  specification's own test, which ends the table, the scan from row 0 records the
  arrival at row 2 and then reads row 3: the run ends with an IndexError and no travel
  time is stored for station 100.
\<close>

theorem scan_runs_past_table:
  "travel_time_table weekday_calendar weekday_trips three_stop_trip [''100'']
     = (Some IndexError, [(''19842'', Minutes 0)], [''100''])"
  by code_simp


text \<open>
  Claim C1 (a candidate that reaches the destination records the elapsed minutes and
  counts one trip).  The scan does not stop at the destination: it goes on to the rows
  of the following trips until a sequence number below that of the candidate or the
  31st row.  In \<open>two_trips\<close> the candidate of row 0 (sequence number 1) records the
  27 minutes of its own trip and then the arrival of the next trip, 47 minutes after
  its departure: 74 minutes and two trips for one candidate.  With the candidate of
  row 2 the station gets 101 minutes over 3 trips, stored as 34, where both trips take
  27 minutes.
\<close>

theorem scan_counts_after_destination:
  "scan two_trips 0 1 [1..<32] (0, 0) = Inr (74, 2)
   \<and> travel_time_table weekday_calendar weekday_trips two_trips [''100'']
       = (None, [(''19842'', Minutes 0), (''100'', Minutes 34)], [''100''])"
  by code_simp


subsection \<open>Part 5: the travel-time table\<close>

lemma fill_trip_dict_log:
  assumes "distinct tr" and "set tr \<subseteq> fst ` set d"
  shows "distinct (snd (snd (fill_trip_dict st_np mc closest (d, tr))))
         \<and> (\<forall>s \<in> set (snd (snd (fill_trip_dict st_np mc closest (d, tr)))).
               s \<in> set tr \<or> s \<notin> fst ` set d)
         \<and> set (snd (snd (fill_trip_dict st_np mc closest (d, tr)))) \<subseteq> set tr \<union> set closest"
  using assms
proof (induction closest arbitrary: d tr)
  case Nil
  then show ?case by simp
next
  case (Cons sid rest)
  show ?case
  proof (cases "sid \<in> fst ` set d")
    case True
    then show ?thesis using Cons.IH [OF Cons.prems] by auto
  next
    case False
    show ?thesis
    proof (cases "station_time st_np mc sid")
      case (Inl e)
      then show ?thesis using False Cons.prems by auto
    next
      case (Inr v)
      have d2: "distinct (tr @ [sid])" using False Cons.prems by auto
      have s2: "set (tr @ [sid]) \<subseteq> fst ` set (d @ [(sid, v)])" using Cons.prems by auto
      from Cons.IH [OF d2 s2] False Inr show ?thesis by auto
    qed
  qed
qed

lemma fill_trip_dict_keys:
  assumes "fst (fill_trip_dict st_np mc closest (d, tr)) = None"
  shows "\<exists>new. map fst (fst (snd (fill_trip_dict st_np mc closest (d, tr)))) = map fst d @ new
               \<and> snd (snd (fill_trip_dict st_np mc closest (d, tr))) = tr @ new
               \<and> set closest \<subseteq> fst ` set d \<union> set new"
  using assms
proof (induction closest arbitrary: d tr)
  case Nil
  then show ?case by simp
next
  case (Cons sid rest)
  show ?case
  proof (cases "sid \<in> fst ` set d")
    case True
    then show ?thesis using Cons.IH [of d tr] Cons.prems by auto
  next
    case False
    show ?thesis
    proof (cases "station_time st_np mc sid")
      case (Inl e)
      then show ?thesis using False Cons.prems by simp
    next
      case (Inr v)
      have "fst (fill_trip_dict st_np mc rest (d @ [(sid, v)], tr @ [sid])) = None"
        using Cons.prems False Inr by simp
      from Cons.IH [OF this] obtain new where
        n: "map fst (fst (snd (fill_trip_dict st_np mc rest (d @ [(sid, v)], tr @ [sid]))))
              = map fst (d @ [(sid, v)]) @ new"
           "snd (snd (fill_trip_dict st_np mc rest (d @ [(sid, v)], tr @ [sid]))) = (tr @ [sid]) @ new"
           "set rest \<subseteq> fst ` set (d @ [(sid, v)]) \<union> set new"
        by blast
      show ?thesis
        apply (rule exI [of _ "sid # new"])
        using n False Inr by auto
    qed
  qed
qed


text \<open>
  Claim C8.  Over the whole list of properties, the traversal is started at most once
  for a station (the list of started traversals has no repetition), never for a station
  that is already a key of the table, so never for Melbourne Central, and only for
  stations of the list.  When the run is not ended by an exception, the keys of the
  table are Melbourne Central followed by exactly these stations, and every property's
  station is a key: the later properties of a station find its value in the table.
\<close>

theorem travel_time_computed_once:
  fixes calendar trips stop_times closest
  defines "r \<equiv> travel_time_table calendar trips stop_times closest"
  shows "distinct (snd (snd r))
         \<and> ''19842'' \<notin> set (snd (snd r))
         \<and> set (snd (snd r)) \<subseteq> set closest
         \<and> (fst r = None \<longrightarrow>
               map fst (fst (snd r)) = ''19842'' # snd (snd r)
               \<and> set closest \<subseteq> set (map fst (fst (snd r))))"
proof (cases "fix_arrivals stop_times")
  case (Inl e)
  then show ?thesis by (simp add: r_def travel_time_table_def)
next
  case (Inr st_np)
  define mc where "mc = mc_trips stop_times (trip_set trips (service_list calendar))"
  define d0 where "d0 = [(''19842'', Minutes 0)]"
  have r: "r = fill_trip_dict st_np mc closest (d0, [])"
    using Inr by (simp add: r_def travel_time_table_def mc_def d0_def)
  have "distinct ([] :: string list)" and "set ([] :: string list) \<subseteq> fst ` set d0"
    by simp_all
  from fill_trip_dict_log [OF this, of st_np mc closest]
  have a: "distinct (snd (snd r))"
    and b: "\<forall>s \<in> set (snd (snd r)). s \<notin> fst ` set d0"
    and c: "set (snd (snd r)) \<subseteq> set closest"
    by (simp_all add: r)
  from b have b': "''19842'' \<notin> set (snd (snd r))"
    by (auto simp: d0_def)
  have k: "map fst (fst (snd r)) = ''19842'' # snd (snd r)
           \<and> set closest \<subseteq> set (map fst (fst (snd r)))" if "fst r = None"
  proof -
    from that have "fst (fill_trip_dict st_np mc closest (d0, [])) = None"
      by (simp add: r)
    from fill_trip_dict_keys [OF this] obtain new where
      "map fst (fst (snd r)) = map fst d0 @ new" "snd (snd r) = new"
      "set closest \<subseteq> fst ` set d0 \<union> set new"
      by (auto simp: r)
    then show ?thesis by (auto simp: d0_def)
  qed
  show ?thesis using a b' c k by blast
qed


text \<open>Witness for C8: three properties, two of them at station 100 and one at Melbourne
  Central; one traversal.\<close>

theorem travel_time_computed_once_witness:
  "fst (travel_time_table weekday_calendar weekday_trips two_trips [''100'', ''100'', ''19842'']) = None
   \<and> snd (snd (travel_time_table weekday_calendar weekday_trips two_trips
                  [''100'', ''100'', ''19842''])) = [''100'']
   \<and> map fst (fst (snd (travel_time_table weekday_calendar weekday_trips two_trips
                  [''100'', ''100'', ''19842'']))) = [''19842'', ''100'']"
proof -
  let ?r = "travel_time_table weekday_calendar weekday_trips two_trips [''100'', ''100'', ''19842'']"
  have n: "fst ?r = None" by code_simp
  have t: "snd (snd ?r) = [''100'']" by code_simp
  from travel_time_computed_once [of weekday_calendar weekday_trips two_trips "[''100'', ''100'', ''19842'']"] n
  have "map fst (fst (snd ?r)) = ''19842'' # snd (snd ?r)" by blast
  with n t show ?thesis by simp
qed


end
